theory Spec2Isabelle
  imports Complex_Main "HOL-Library.Log_Nat"
begin

section \<open>Exceptions\<close>

text \<open>
  Every exception class that the handlers of \<^verbatim>\<open>src/reactor/main.py\<close> can meet.
  All of them derive from Python's \<^verbatim>\<open>Exception\<close>, so an \<^verbatim>\<open>except Exception\<close>
  clause catches each one. The only other clauses of the source name
  \<^verbatim>\<open>json.JSONDecodeError\<close> and \<^verbatim>\<open>WebSocketDisconnect\<close>; no other class of the list
  derives from either, so each of these two clauses catches its own class only.
\<close>

datatype exn =
    StructError          \<comment> \<open>\<^verbatim>\<open>struct.error\<close>\<close>
  | OverflowError        \<comment> \<open>\<^verbatim>\<open>int(float('inf'))\<close>\<close>
  | ValueError           \<comment> \<open>\<^verbatim>\<open>int(float('nan'))\<close>\<close>
  | ValidationError      \<comment> \<open>\<^verbatim>\<open>pydantic.ValidationError\<close>\<close>
  | JSONDecodeError      \<comment> \<open>\<^verbatim>\<open>json.JSONDecodeError\<close>\<close>
  | WebSocketDisconnect  \<comment> \<open>\<^verbatim>\<open>fastapi.WebSocketDisconnect\<close>\<close>
  | RuntimeError         \<comment> \<open>dictionary changed size during iteration\<close>
  | SchemaError          \<comment> \<open>\<^verbatim>\<open>polars.exceptions.SchemaError\<close>\<close>
  | HTTPException nat    \<comment> \<open>\<^verbatim>\<open>fastapi.HTTPException(status_code=..)\<close>\<close>
  | TransportError       \<comment> \<open>whatever a broken transport raises on send\<close>

definition bind_exn :: "exn + 'a \<Rightarrow> ('a \<Rightarrow> exn + 'b) \<Rightarrow> exn + 'b" where
  "bind_exn r f = (case r of Inl e \<Rightarrow> Inl e | Inr x \<Rightarrow> f x)"

section \<open>Python floats\<close>

text \<open>
  A Python \<^verbatim>\<open>float\<close> is an IEEE 754 binary64 value. \<open>Finite m e\<close> stands for the
  number \<open>m * 2 ^ e\<close>; \<open>Infinity neg\<close> is the infinity of that sign. A double has
  \<open>\<bar>m\<bar> < 2 ^ 53\<close> and \<open>- 1074 \<le> e \<le> 971\<close>.
\<close>

datatype pyfloat = Finite int int | Infinity bool | NaN

definition is_double :: "pyfloat \<Rightarrow> bool" where
  "is_double x = (case x of
      Finite m e \<Rightarrow> \<bar>m\<bar> < 2 ^ 53 \<and> - 1074 \<le> e \<and> e \<le> 971
    | _ \<Rightarrow> True)"

definition valof :: "int \<Rightarrow> int \<Rightarrow> rat" where
  "valof m e = (if 0 \<le> e then of_int m * 2 ^ nat e else of_int m / 2 ^ nat (- e))"

text \<open>
  Dropping the \<open>k\<close> low bits of a magnitude, to nearest, ties to the even neighbour
  (the default rounding of binary64 arithmetic).
\<close>

definition rne :: "int \<Rightarrow> nat \<Rightarrow> int" where
  "rne a k = (let q = a div 2 ^ k; r = a mod 2 ^ k; h = 2 ^ k div 2 in
     if h < r \<or> (r = h \<and> k \<noteq> 0 \<and> odd q) then q + 1 else q)"

text \<open>
  The double nearest to \<open>p * 2 ^ e\<close>: at most 53 significant bits, no bit below
  \<open>2 ^ - 1074\<close>, infinity from \<open>2 ^ 1024\<close> on.
\<close>

definition round_double :: "int \<Rightarrow> int \<Rightarrow> pyfloat" where
  "round_double p e = (let k = max (bitlen \<bar>p\<bar> - 53) (- 1074 - e) in
     if k \<le> 0 then
       (if 0 \<le> e \<and> 2 ^ 1024 \<le> \<bar>p\<bar> * 2 ^ nat e then Infinity (p < 0) else Finite p e)
     else
       (let q = rne \<bar>p\<bar> (nat k) in
        if 0 \<le> e + k \<and> 2 ^ 1024 \<le> q * 2 ^ nat (e + k) then Infinity (p < 0)
        else Finite (sgn p * q) (e + k)))"

fun fmul :: "pyfloat \<Rightarrow> pyfloat \<Rightarrow> pyfloat" where
  "fmul NaN _ = NaN"
| "fmul _ NaN = NaN"
| "fmul (Infinity s) (Infinity t) = Infinity (s \<noteq> t)"
| "fmul (Infinity s) (Finite m e) = (if m = 0 then NaN else Infinity (s \<noteq> (m < 0)))"
| "fmul (Finite m e) (Infinity s) = (if m = 0 then NaN else Infinity (s \<noteq> (m < 0)))"
| "fmul (Finite m1 e1) (Finite m2 e2) = round_double (m1 * m2) (e1 + e2)"

definition float_of_int :: "int \<Rightarrow> pyfloat" where
  "float_of_int n = round_double n 0"

text \<open>\<^verbatim>\<open>int(x)\<close>: truncation toward zero; infinities and NaN raise.\<close>

definition py_int :: "pyfloat \<Rightarrow> exn + int" where
  "py_int x = (case x of
      Finite m e \<Rightarrow>
        Inr (if 0 \<le> e then m * 2 ^ nat e else sgn m * (\<bar>m\<bar> div 2 ^ nat (- e)))
    | Infinity _ \<Rightarrow> Inl OverflowError
    | NaN \<Rightarrow> Inl ValueError)"

section \<open>\<^verbatim>\<open>struct.pack\<close> and \<^verbatim>\<open>bytes.hex\<close>\<close>

text \<open>
  The format codes the source uses: \<^verbatim>\<open>B\<close> (unsigned char) and \<^verbatim>\<open>H\<close> (unsigned
  short), after the byte-order mark \<^verbatim>\<open>!\<close> (network order, big-endian, no padding).
  \<^verbatim>\<open>struct.pack\<close> first compares the number of arguments with the number of codes
  and raises \<^verbatim>\<open>struct.error\<close> when they differ; an argument outside the range of
  its code raises \<^verbatim>\<open>struct.error\<close> too. Formats outside this fragment (other codes,
  repeat counts, native alignment) do not occur in the source; here they are errors.
\<close>

datatype fmt_code = UChar | UShort

fun parse_codes :: "string \<Rightarrow> exn + fmt_code list" where
  "parse_codes [] = Inr []"
| "parse_codes (c # cs) =
     (if c = CHR ''B'' then bind_exn (parse_codes cs) (\<lambda>r. Inr (UChar # r))
      else if c = CHR ''H'' then bind_exn (parse_codes cs) (\<lambda>r. Inr (UShort # r))
      else Inl StructError)"

definition parse_format :: "string \<Rightarrow> exn + fmt_code list" where
  "parse_format fmt = (case fmt of
      [] \<Rightarrow> Inr []
    | c # cs \<Rightarrow> if c = CHR ''!'' then parse_codes cs else Inl StructError)"

fun pack_one :: "fmt_code \<Rightarrow> int \<Rightarrow> exn + nat list" where
  "pack_one UChar v = (if 0 \<le> v \<and> v \<le> 255 then Inr [nat v] else Inl StructError)"
| "pack_one UShort v =
     (if 0 \<le> v \<and> v \<le> 65535 then Inr [nat v div 256, nat v mod 256] else Inl StructError)"

fun pack_all :: "fmt_code list \<Rightarrow> int list \<Rightarrow> exn + nat list" where
  "pack_all (c # cs) (v # vs) =
     bind_exn (pack_one c v) (\<lambda>b. bind_exn (pack_all cs vs) (\<lambda>bs. Inr (b @ bs)))"
| "pack_all _ _ = Inr []"

definition struct_pack :: "string \<Rightarrow> int list \<Rightarrow> exn + nat list" where
  "struct_pack fmt args = bind_exn (parse_format fmt) (\<lambda>codes.
     if length args \<noteq> length codes then Inl StructError else pack_all codes args)"

definition hex_digit :: "nat \<Rightarrow> char" where
  "hex_digit n = ''0123456789abcdef'' ! n"

definition hex :: "nat list \<Rightarrow> string" where
  "hex bs = concat (map (\<lambda>b. [hex_digit (b div 16), hex_digit (b mod 16)]) bs)"

section \<open>The data model\<close>

type_synonym datetime = nat

datatype status_value = StatusBool bool | StatusStr string

text \<open>Python truth of a \<^verbatim>\<open>bool | str\<close>: a string is true when it is not empty.\<close>

fun truthy :: "status_value \<Rightarrow> bool" where
  "truthy (StatusBool b) = b"
| "truthy (StatusStr s) = (s \<noteq> [])"

record ReactorDataModel =
  timestamp :: "datetime option"
  temperature :: pyfloat
  fuel_level :: pyfloat
  coolant_level :: pyfloat
  waste_level :: pyfloat
  status :: status_value
  burn_rate :: pyfloat
  actual_burn_rate :: pyfloat
  alert_status :: int

section \<open>Logging and the server state\<close>

text \<open>
  One constructor per \<^verbatim>\<open>logger\<close> call of the source; the level is the method
  called (\<^verbatim>\<open>logger.debug\<close>, \<^verbatim>\<open>logger.info\<close>, \<^verbatim>\<open>logger.error\<close>).
\<close>

datatype level = DEBUG | INFO | ERROR

datatype log_msg =
    Connected string                 \<comment> \<open>ComputerCraft .. connected\<close>
  | Received string string           \<comment> \<open>Received from ComputerCraft ..: ..\<close>
  | ParseFailed                      \<comment> \<open>Failed to parse JSON from ComputerCraft\<close>
  | Disconnected string              \<comment> \<open>ComputerCraft .. disconnected\<close>
  | SentToEsp                        \<comment> \<open>Sent data to ESP8266\<close>
  | SendToEspFailed exn              \<comment> \<open>Failed to send data to ESP8266: ..\<close>
  | CommandReceived                  \<comment> \<open>Received control command from ESP8266: ..\<close>
  | CommandSendFailed string exn     \<comment> \<open>Failed to send command to ComputerCraft ..: ..\<close>
  | InvalidCommand exn               \<comment> \<open>Invalid control command from ..: .., error: ..\<close>
  | Flushed nat                      \<comment> \<open>Flushed .. records to data log.\<close>
  | Saved                            \<comment> \<open>Saved data log to ..\<close>
  | LoadingLog                       \<comment> \<open>Loading existing data log from ..\<close>
  | InitializingLog                  \<comment> \<open>Initializing new data log\<close>

type_synonym websocket = nat

text \<open>
  A Polars frame: its schema (column name and type, in column order) and its rows.
  The rows keep the values of the records they were built from.
\<close>

datatype dtype = Datetime | Float32 | Float64 | Boolean | String | UInt8 | Int64

record DataFrame =
  schema :: "(string \<times> dtype) list"
  rows :: "ReactorDataModel list"

text \<open>
  The process state: the fields of the global \<^verbatim>\<open>data_manager\<close> and
  \<^verbatim>\<open>conn_manager\<close>, the file \<^verbatim>\<open>settings.LOG_FILE\<close> on disk (\<open>None\<close> when it
  does not exist), the websockets it has accepted, and what it has sent and logged so
  far. A Python \<^verbatim>\<open>dict\<close>
  keeps insertion order, so the connection table is a list of entries with distinct
  keys. The two \<^verbatim>\<open>asyncio.Lock\<close>s guard sections that contain no \<^verbatim>\<open>await\<close>;
  such a section runs without interruption and is one step here.
\<close>

record server =
  reactor_data :: ReactorDataModel
  data_buffer :: "ReactorDataModel list"
  data_log :: DataFrame
  log_file :: "DataFrame option"
  computercraft_connections :: "(string \<times> websocket) list"
  esp8266_connected :: bool
  accepted :: "websocket list"
  emitted :: "(string \<times> (string \<times> string) list) list"
  sent :: "(websocket \<times> string) list"
  logs :: "(level \<times> log_msg) list"

definition logger :: "level \<Rightarrow> log_msg \<Rightarrow> server \<Rightarrow> server" where
  "logger l m s = s\<lparr>logs := logs s @ [(l, m)]\<rparr>"

section \<open>The encoder: \<^verbatim>\<open>send_to_esp8266\<close>\<close>

text \<open>The expression \<^verbatim>\<open>min(int(x * 10), 65535)\<close> of each 16-bit field.\<close>

definition scaled :: "pyfloat \<Rightarrow> exn + int" where
  "scaled x = bind_exn (py_int (fmul x (float_of_int 10))) (\<lambda>n. Inr (min n 65535))"

text \<open>
  The eight arguments handed to \<^verbatim>\<open>struct.pack\<close> after the format, evaluated from
  left to right; the first conversion that raises ends the evaluation.
\<close>

definition pack_args :: "ReactorDataModel \<Rightarrow> exn + int list" where
  "pack_args d =
     bind_exn (scaled (temperature d)) (\<lambda>t.
     bind_exn (scaled (fuel_level d)) (\<lambda>f.
     bind_exn (scaled (coolant_level d)) (\<lambda>c.
     bind_exn (scaled (waste_level d)) (\<lambda>w.
       Inr [170, t, f, c, w, if truthy (status d) then 1 else 0, alert_status d, 85]))))"

definition send_to_esp8266 :: "ReactorDataModel \<Rightarrow> server \<Rightarrow> server" where
  "send_to_esp8266 d s =
     (case bind_exn (pack_args d) (struct_pack ''!BHHHHBB'') of
        Inr packet \<Rightarrow>
          logger DEBUG SentToEsp
            (s\<lparr>emitted := emitted s @ [(''reactor_data'', [(''data'', hex packet)])]\<rparr>)
      | Inl e \<Rightarrow> logger ERROR (SendToEspFailed e) s)"

text \<open>
  The frame the comment in \<^verbatim>\<open>send_to_esp8266\<close> describes and the specification
  expects: the hexadecimal string of header, four 16-bit fields, status, alert and
  checksum, which is what a format of eight codes would pack.
\<close>

definition described_frame :: "ReactorDataModel \<Rightarrow> exn + string" where
  "described_frame d =
     bind_exn (bind_exn (pack_args d) (struct_pack ''!BHHHHBBB'')) (\<lambda>p. Inr (hex p))"

text \<open>
  Following the specification's words for a 16-bit field: \<open>round (value * 10)\<close>
  clamped to \<open>[0, 65535]\<close>.
\<close>

definition spec_field :: "rat \<Rightarrow> int" where
  "spec_field v = max 0 (min 65535 (round (v * 10)))"

section \<open>\<^verbatim>\<open>DataManager\<close>\<close>

text \<open>The schema dictionary of \<^verbatim>\<open>_load_or_initialize_log\<close>.\<close>

definition log_schema :: "(string \<times> dtype) list" where
  "log_schema =
     [(''timestamp'', Datetime), (''temperature'', Float32), (''fuel_level'', Float32),
      (''coolant_level'', Float32), (''waste_level'', Float32), (''status'', Boolean),
      (''burn_rate'', Float32), (''actual_burn_rate'', Float32), (''alert_status'', UInt8)]"

definition load_or_initialize_log :: "DataFrame option \<Rightarrow> DataFrame" where
  "load_or_initialize_log file = (case file of
      Some df \<Rightarrow> df
    | None \<Rightarrow> \<lparr>schema = log_schema, rows = []\<rparr>)"

text \<open>\<^verbatim>\<open>ReactorDataModel()\<close>: every field at its default.\<close>

definition default_reading :: ReactorDataModel where
  "default_reading = \<lparr>timestamp = None, temperature = Finite 0 0, fuel_level = Finite 0 0,
     coolant_level = Finite 0 0, waste_level = Finite 0 0, status = StatusBool False,
     burn_rate = Finite 0 0, actual_burn_rate = Finite 0 0, alert_status = 0\<rparr>"

text \<open>
  The state after the module has been loaded: \<^verbatim>\<open>ConnectionManager()\<close> and
  \<^verbatim>\<open>DataManager(log_file=settings.LOG_FILE)\<close>, given the file found on disk.
\<close>

definition init_server :: "DataFrame option \<Rightarrow> server" where
  "init_server file =
     \<lparr>reactor_data = default_reading, data_buffer = [],
      data_log = load_or_initialize_log file, log_file = file,
      computercraft_connections = [], esp8266_connected = False, accepted = [],
      emitted = [], sent = [],
      logs = [(INFO, if file = None then InitializingLog else LoadingLog)]\<rparr>"

definition add_log_entry :: "ReactorDataModel \<Rightarrow> datetime \<Rightarrow> server \<Rightarrow> server" where
  "add_log_entry rd now s =
     (let log_entry = rd\<lparr>timestamp := Some now\<rparr>
      in s\<lparr>data_buffer := data_buffer s @ [log_entry]\<rparr>)"

text \<open>
  \<^verbatim>\<open>pl.DataFrame([item.model_dump() for item in ...])\<close>: one row per record, the
  column types inferred from the Python values: a \<^verbatim>\<open>datetime\<close> gives
  \<open>Datetime\<close>, a \<^verbatim>\<open>float\<close> gives \<open>Float64\<close>, an \<^verbatim>\<open>int\<close> gives \<open>Int64\<close>, a
  \<^verbatim>\<open>bool\<close> gives \<open>Boolean\<close> and a \<^verbatim>\<open>str\<close> gives \<open>String\<close> (which is also
  taken for a status column that mixes both).
\<close>

definition frame_of_dumps :: "ReactorDataModel list \<Rightarrow> DataFrame" where
  "frame_of_dumps items =
     \<lparr>schema =
        [(''timestamp'', Datetime), (''temperature'', Float64), (''fuel_level'', Float64),
         (''coolant_level'', Float64), (''waste_level'', Float64),
         (''status'', if list_all (\<lambda>r. case status r of StatusBool _ \<Rightarrow> True | _ \<Rightarrow> False) items
                      then Boolean else String),
         (''burn_rate'', Float64), (''actual_burn_rate'', Float64), (''alert_status'', Int64)],
      rows = items\<rparr>"

text \<open>
  \<^verbatim>\<open>pl.concat([a, b])\<close> with the default \<^verbatim>\<open>how="vertical"\<close>: the rows of \<open>b\<close>
  after those of \<open>a\<close>; the two frames must have the same columns with the same types,
  otherwise Polars raises \<^verbatim>\<open>SchemaError\<close> (only \<^verbatim>\<open>how="vertical_relaxed"\<close> casts
  to a common type).
\<close>

definition pl_concat :: "DataFrame \<Rightarrow> DataFrame \<Rightarrow> exn + DataFrame" where
  "pl_concat a b =
     (if schema a = schema b then Inr \<lparr>schema = schema a, rows = rows a @ rows b\<rparr>
      else Inl SchemaError)"

text \<open>
  A handler's result: \<open>None\<close> when it returns, \<open>Some e\<close> when \<open>e\<close> leaves it
  uncaught; the state is the one reached at that point.
\<close>

definition flush_buffer_to_log :: "server \<Rightarrow> exn option \<times> server" where
  "flush_buffer_to_log s =
     (if data_buffer s = [] then (None, s)
      else case pl_concat (data_log s) (frame_of_dumps (data_buffer s)) of
          Inl e \<Rightarrow> (Some e, s)
        | Inr df \<Rightarrow>
            (None, logger INFO (Flushed (length (data_buffer s)))
                     (s\<lparr>data_log := df, data_buffer := []\<rparr>)))"

definition save_log_to_disk :: "server \<Rightarrow> exn option \<times> server" where
  "save_log_to_disk s = (case flush_buffer_to_log s of
      (Some e, s') \<Rightarrow> (Some e, s')
    | (None, s') \<Rightarrow>
        if rows (data_log s') \<noteq> []
        then (None, logger INFO Saved (s'\<lparr>log_file := Some (data_log s')\<rparr>))
        else (None, s'))"

section \<open>\<^verbatim>\<open>ConnectionManager\<close>\<close>

text \<open>\<^verbatim>\<open>d[k] = v\<close>: a present key keeps its place, a new one goes to the end.\<close>

fun dict_set :: "'k \<Rightarrow> 'v \<Rightarrow> ('k \<times> 'v) list \<Rightarrow> ('k \<times> 'v) list" where
  "dict_set k v [] = [(k, v)]"
| "dict_set k v (kv # d) = (if fst kv = k then (k, v) # d else kv # dict_set k v d)"

definition add_computercraft :: "string \<Rightarrow> websocket \<Rightarrow> server \<Rightarrow> server" where
  "add_computercraft computer_id ws s =
     s\<lparr>computercraft_connections := dict_set computer_id ws (computercraft_connections s)\<rparr>"

definition remove_computercraft :: "string \<Rightarrow> server \<Rightarrow> server" where
  "remove_computercraft computer_id s =
     (if computer_id \<in> fst ` set (computercraft_connections s)
      then s\<lparr>computercraft_connections :=
               filter (\<lambda>kv. fst kv \<noteq> computer_id) (computercraft_connections s)\<rparr>
      else s)"

definition set_esp8266_connected :: "bool \<Rightarrow> server \<Rightarrow> server" where
  "set_esp8266_connected b s = s\<lparr>esp8266_connected := b\<rparr>"

section \<open>The producer endpoint\<close>

record Settings =
  SECRET_KEY :: string

definition get_secret_key :: "Settings \<Rightarrow> string \<Rightarrow> exn + string" where
  "get_secret_key settings secret =
     (if secret \<noteq> SECRET_KEY settings then Inl (HTTPException 403) else Inr secret)"

text \<open>
  What \<^verbatim>\<open>await websocket.receive_text()\<close> yields: a text message (with the clock
  reading \<^verbatim>\<open>datetime.now()\<close> will give while that message is handled), or the
  \<^verbatim>\<open>WebSocketDisconnect\<close> raised when the peer has gone.
\<close>

datatype ws_event = ReceiveText string datetime | ReceiveDisconnect

text \<open>
  How a run of the endpoint stands after the given events: refused by the dependency,
  still waiting in \<^verbatim>\<open>receive_text\<close> with the connection open, returned after the
  disconnect branch, or left by an exception that no clause caught (the framework
  then drops the connection).
\<close>

datatype outcome = Rejected exn | Awaiting | Closed | Raised exn

definition on_disconnect :: "string \<Rightarrow> server \<Rightarrow> server" where
  "on_disconnect computer_id s =
     remove_computercraft computer_id (logger INFO (Disconnected computer_id) s)"

text \<open>
  The \<^verbatim>\<open>while True\<close> loop. \<open>validate\<close> is \<^verbatim>\<open>ReactorDataModel.model_validate_json\<close>:
  the record parsed from the text, or the exception raised. The inner \<^verbatim>\<open>try\<close> has
  the single clause \<^verbatim>\<open>except json.JSONDecodeError\<close>, the outer one the single clause
  \<^verbatim>\<open>except WebSocketDisconnect\<close>.
\<close>

fun receive_loop ::
  "(string \<Rightarrow> exn + ReactorDataModel) \<Rightarrow> string \<Rightarrow> ws_event list \<Rightarrow> server \<Rightarrow> outcome \<times> server"
where
  "receive_loop validate computer_id [] s = (Awaiting, s)"
| "receive_loop validate computer_id (ReceiveDisconnect # evs) s =
     (Closed, on_disconnect computer_id s)"
| "receive_loop validate computer_id (ReceiveText data now # evs) s =
     (let s1 = logger DEBUG (Received computer_id data) s in
      case validate data of
        Inr rd \<Rightarrow>
          (let s2 = s1\<lparr>reactor_data := rd\<rparr>;
               s3 = add_log_entry rd now s2;
               s4 = (if esp8266_connected s3 then send_to_esp8266 rd s3 else s3)
           in receive_loop validate computer_id evs s4)
      | Inl e \<Rightarrow>
          if e = JSONDecodeError
          then receive_loop validate computer_id evs (logger ERROR ParseFailed s1)
          else if e = WebSocketDisconnect then (Closed, on_disconnect computer_id s1)
          else (Raised e, s1))"

text \<open>
  The endpoint: FastAPI resolves the dependency \<^verbatim>\<open>get_secret_key\<close> before it calls
  the function; when the dependency raises, the body does not run.
\<close>

definition websocket_endpoint ::
  "Settings \<Rightarrow> (string \<Rightarrow> exn + ReactorDataModel) \<Rightarrow> websocket \<Rightarrow> string \<Rightarrow> string \<Rightarrow>
   ws_event list \<Rightarrow> server \<Rightarrow> outcome \<times> server"
where
  "websocket_endpoint settings validate ws computer_id secret evs s =
     (case get_secret_key settings secret of
        Inl e \<Rightarrow> (Rejected e, s)
      | Inr _ \<Rightarrow>
          (let s1 = s\<lparr>accepted := accepted s @ [ws]\<rparr>;
               s2 = add_computercraft computer_id ws s1;
               s3 = logger INFO (Connected computer_id) s2
           in receive_loop validate computer_id evs s3))"

section \<open>The consumer's events\<close>

definition connect :: "server \<Rightarrow> server" where
  "connect s = set_esp8266_connected True s"

definition disconnect :: "server \<Rightarrow> server" where
  "disconnect s = set_esp8266_connected False s"

datatype command_value = VStr string | VInt int | VFloat pyfloat | VBool bool

record ControlCommand =
  command :: string
  command_value :: "command_value option"

text \<open>
  The \<^verbatim>\<open>for\<close> loop of \<^verbatim>\<open>control_command\<close> over
  \<^verbatim>\<open>conn_manager.computercraft_connections.items()\<close>. The view reads the live
  dictionary, and each \<^verbatim>\<open>await websocket.send_text(..)\<close> lets other tasks run:
  \<open>env\<close> lists, send by send, the producers whose handlers run their disconnect
  branch meanwhile. The iterator remembers the size the dictionary had when the loop
  began (\<open>used\<close>) and its position (\<open>pos\<close>); asked for the next entry it raises
  \<^verbatim>\<open>RuntimeError\<close> when the size differs. \<open>send_text ws\<close> is \<open>None\<close> when the
  send to \<open>ws\<close> goes through and \<open>Some e\<close> when it raises \<open>e\<close>.
\<close>

function fan_out ::
  "(websocket \<Rightarrow> exn option) \<Rightarrow> string \<Rightarrow> nat \<Rightarrow> nat \<Rightarrow> string list list \<Rightarrow> server \<Rightarrow>
   exn option \<times> server"
where
  "fan_out send_text command_data used pos env s =
     (let d = computercraft_connections s in
      if length d \<noteq> used then (Some RuntimeError, s)
      else if length d \<le> pos then (None, s)
      else
        (let computer_id = fst (d ! pos); ws = snd (d ! pos);
             s1 = (case send_text ws of
                     None \<Rightarrow> s\<lparr>sent := sent s @ [(ws, command_data)]\<rparr>
                   | Some e \<Rightarrow> logger ERROR (CommandSendFailed computer_id e) s);
             s2 = fold on_disconnect (case env of [] \<Rightarrow> [] | gone # _ \<Rightarrow> gone) s1
         in fan_out send_text command_data used (Suc pos) (tl env) s2))"
  by pat_completeness auto
termination
  by (relation "measure (\<lambda>(send_text, command_data, used, pos, env, s). used - pos)") auto

text \<open>
  \<open>validate\<close> is \<^verbatim>\<open>ControlCommand.model_validate\<close> and \<open>dump\<close> is
  \<^verbatim>\<open>model_dump_json\<close>. The outer \<^verbatim>\<open>except Exception\<close> also receives what the
  loop itself raises.
\<close>

definition control_command ::
  "('raw \<Rightarrow> exn + ControlCommand) \<Rightarrow> (ControlCommand \<Rightarrow> string) \<Rightarrow> (websocket \<Rightarrow> exn option) \<Rightarrow>
   string list list \<Rightarrow> 'raw \<Rightarrow> server \<Rightarrow> server"
where
  "control_command validate dump send_text env data s =
     (case validate data of
        Inl e \<Rightarrow> logger ERROR (InvalidCommand e) s
      | Inr cmd \<Rightarrow>
          (let s1 = logger INFO CommandReceived s;
               command_data = dump cmd
           in case fan_out send_text command_data (length (computercraft_connections s1)) 0 env s1 of
                (None, s2) \<Rightarrow> s2
              | (Some e, s2) \<Rightarrow> logger ERROR (InvalidCommand e) s2))"

declare fan_out.simps [simp del]

section \<open>Notions used in the statements\<close>

text \<open>
  What a fan-out over the entries \<open>d\<close> hands to the transports that accept it, and
  what it logs for those that raise.
\<close>

definition delivered ::
  "(websocket \<Rightarrow> exn option) \<Rightarrow> string \<Rightarrow> (string \<times> websocket) list \<Rightarrow> (websocket \<times> string) list"
where
  "delivered send_text command_data d =
     map (\<lambda>kv. (snd kv, command_data)) (filter (\<lambda>kv. send_text (snd kv) = None) d)"

definition failures ::
  "(websocket \<Rightarrow> exn option) \<Rightarrow> (string \<times> websocket) list \<Rightarrow> (level \<times> log_msg) list"
where
  "failures send_text d =
     concat (map (\<lambda>kv. case send_text (snd kv) of
                          None \<Rightarrow> []
                        | Some e \<Rightarrow> [(ERROR, CommandSendFailed (fst kv) e)]) d)"

text \<open>
  The entries a loop over the live table reaches, given the keys \<open>keys\<close> the table
  had when the loop began: it goes on entry by entry and stops after the first send
  during which a registered producer was removed.
\<close>

fun visited ::
  "string list \<Rightarrow> (string \<times> websocket) list \<Rightarrow> string list list \<Rightarrow> (string \<times> websocket) list"
where
  "visited keys [] env = []"
| "visited keys (kv # d) env =
     kv # (if (case env of [] \<Rightarrow> False | gone # _ \<Rightarrow> list_ex (\<lambda>k. k \<in> set keys) gone)
           then [] else visited keys d (tl env))"

text \<open>The reading of the specification's end-to-end scenario; 350.2 as a double.\<close>

definition example_reading :: ReactorDataModel where
  "example_reading = \<lparr>timestamp = None, temperature = Finite 6160783552754483 (- 44),
     fuel_level = Finite 80 0, coolant_level = Finite 191 (- 1), waste_level = Finite 10 0,
     status = StatusBool True, burn_rate = Finite 0 0, actual_burn_rate = Finite 0 0,
     alert_status = 2\<rparr>"

text \<open>A server with three producers registered.\<close>

definition three :: server where
  "three = (init_server None)\<lparr>computercraft_connections := [(''A'', 1), (''B'', 2), (''C'', 3)]\<rparr>"

text \<open>A command without a value.\<close>

definition scram :: ControlCommand where
  "scram = \<lparr>command = ''scram'', command_value = None\<rparr>"

section \<open>The frame\<close>

lemma pack_args_length: "pack_args d = Inr xs \<Longrightarrow> length xs = 8"
  by (auto simp: pack_args_def bind_exn_def split: sum.splits)

lemma struct_pack_eight: "length xs = 8 \<Longrightarrow> struct_pack ''!BHHHHBB'' xs = Inl StructError"
  by (simp add: struct_pack_def parse_format_def bind_exn_def)

lemma pack_args_example: "pack_args example_reading = Inr [170, 3502, 800, 955, 100, 1, 2, 85]"
  by (simp add: pack_args_def example_reading_def scaled_def bind_exn_def py_int_def
      float_of_int_def round_double_def rne_def compute_bitlen Let_def)

lemma described_frame_example:
  "described_frame example_reading = Inr ''aa0dae032003bb0064010255''"
  by code_simp

text \<open>
  C1. The specification has every forwarded reading encoded as a 12-byte frame and
  delivered as its hexadecimal string. The format string \<^verbatim>\<open>"!BHHHHBB"\<close> has seven
  codes and the call passes eight values, so \<^verbatim>\<open>struct.pack\<close> raises for every
  reading: \<^verbatim>\<open>send_to_esp8266\<close> emits nothing and logs the failure. (The eight-code
  format of the source's comment would give the frame of \<open>described_frame\<close>.)
\<close>

theorem send_to_esp8266_never_emits:
  "emitted (send_to_esp8266 d s) = emitted s \<and>
   (\<exists>e. logs (send_to_esp8266 d s) = logs s @ [(ERROR, SendToEspFailed e)])"
proof (cases "pack_args d")
  case (Inl e)
  then show ?thesis by (simp add: send_to_esp8266_def bind_exn_def logger_def)
next
  case (Inr xs)
  then have "struct_pack ''!BHHHHBB'' xs = Inl StructError"
    by (intro struct_pack_eight pack_args_length)
  with Inr show ?thesis by (simp add: send_to_esp8266_def bind_exn_def logger_def)
qed

section \<open>The scaled fields\<close>

lemma float_of_int_10: "float_of_int 10 = Finite 10 0"
  by (simp add: float_of_int_def round_double_def compute_bitlen)

lemma bitlen_le: "0 \<le> n \<Longrightarrow> p < 2 ^ nat n \<Longrightarrow> bitlen p \<le> n"
proof (cases "0 < p")
  case False
  assume "0 \<le> n"
  with False show ?thesis by (simp add: bitlen_alt_def)
next
  case True
  assume n: "0 \<le> n" and p: "p < 2 ^ nat n"
  from bitlen_bounds [OF True] have "(2::int) ^ nat (bitlen p - 1) \<le> p" by simp
  with p have "(2::int) ^ nat (bitlen p - 1) < 2 ^ nat n" by linarith
  then have "nat (bitlen p - 1) < nat n" by simp
  then show ?thesis using n by linarith
qed

lemma rne_lower: "0 \<le> a \<Longrightarrow> a div 2 ^ k \<le> rne a k"
  by (simp add: rne_def Let_def)

lemma rne_upper: "rne a k \<le> a div 2 ^ k + 1"
  by (simp add: rne_def Let_def)

lemma rne_exact: "a mod 2 ^ k = 0 \<Longrightarrow> rne a k = a div 2 ^ k"
  by (cases k) (auto simp: rne_def Let_def)

lemma trunc_rounded_lower:
  assumes "0 \<le> p" "K \<le> E"
  shows "p div 2 ^ E \<le> rne p K div 2 ^ (E - K)"
proof -
  have "p div 2 ^ E = p div (2 ^ K * 2 ^ (E - K))"
    using assms by (simp flip: power_add)
  also have "\<dots> = p div 2 ^ K div 2 ^ (E - K)"
    by (rule zdiv_zmult2_eq) simp
  also have "\<dots> \<le> rne p K div 2 ^ (E - K)"
    by (rule zdiv_mono1) (use assms rne_lower in auto)
  finally show ?thesis .
qed

lemma div_mult_le_int: "0 < b \<Longrightarrow> (a::int) div b * b \<le> a"
proof -
  assume b: "0 < b"
  have "b * (a div b) + a mod b = a" by (rule mult_div_mod_eq)
  moreover have "0 \<le> a mod b" using b by simp
  ultimately have "b * (a div b) \<le> a" by linarith
  then show ?thesis by (simp add: mult.commute)
qed

lemma div_less_int: "0 < b \<Longrightarrow> (a::int) < M * b \<Longrightarrow> a div b < M"
proof (rule ccontr)
  assume b: "0 < b" and a: "a < M * b" and "\<not> a div b < M"
  then have "M \<le> a div b" by simp
  then have "M * b \<le> a div b * b" using b by (simp add: mult_right_mono)
  also have "\<dots> \<le> a" using b by (rule div_mult_le_int)
  finally show False using a by simp
qed

lemma trunc_rounded_upper:
  assumes "0 \<le> p" "K \<le> E"
  shows "rne p K div 2 ^ (E - K) \<le> - ((- p) div 2 ^ E)"
proof -
  define C where "C = - ((- p) div 2 ^ E)"
  define J where "J = (2::int) ^ (E - K)"
  have E: "(2::int) ^ E = J * 2 ^ K"
    using assms by (simp add: J_def flip: power_add)
  have Jpos: "0 < J" by (simp add: J_def)
  have "(- p) div 2 ^ E * 2 ^ E \<le> - p"
    by (rule div_mult_le_int) simp
  then have pC: "p \<le> C * J * 2 ^ K"
    by (simp add: C_def E mult.assoc)
  have "rne p K \<le> C * J"
  proof (cases "p mod 2 ^ K = 0")
    case True
    then have "rne p K = p div 2 ^ K" by (rule rne_exact)
    also have "\<dots> \<le> (C * J * 2 ^ K) div 2 ^ K"
      by (rule zdiv_mono1) (use pC in auto)
    finally show ?thesis by simp
  next
    case False
    have "p \<noteq> C * J * 2 ^ K" using False by auto
    with pC have "p < C * J * 2 ^ K" by simp
    then have "p div 2 ^ K < C * J"
      by (intro div_less_int) auto
    with rne_upper [of p K] show ?thesis by linarith
  qed
  then have "rne p K div J \<le> C * J div J"
    by (rule zdiv_mono1) (rule Jpos)
  then have "rne p K div J \<le> C" using Jpos by simp
  then show ?thesis unfolding C_def J_def .
qed

lemma valof_nonneg: "0 \<le> valof m e \<Longrightarrow> 0 \<le> m"
proof -
  have pos: "(0::rat) < 2 ^ n" for n by simp
  assume "0 \<le> valof m e"
  then show ?thesis
    using pos [of "nat e"] pos [of "nat (- e)"]
    by (auto simp: valof_def zero_le_mult_iff zero_le_divide_iff simp del: zero_less_power split: if_splits)
qed

lemma floor_valof_neg: "e < 0 \<Longrightarrow> \<lfloor>10 * valof m e\<rfloor> = (m * 10) div 2 ^ nat (- e)"
proof -
  assume "e < 0"
  then have "10 * valof m e = of_int (m * 10) / of_int (2 ^ nat (- e))"
    by (simp add: valof_def)
  then show ?thesis by (simp only: floor_divide_of_int_eq)
qed

lemma ceiling_valof_neg: "e < 0 \<Longrightarrow> \<lceil>10 * valof m e\<rceil> = - ((- (m * 10)) div 2 ^ nat (- e))"
proof -
  assume "e < 0"
  then have "10 * valof m e = of_int (m * 10) / of_int (2 ^ nat (- e))"
    by (simp add: valof_def)
  then show ?thesis by (simp only: ceiling_divide_eq_div)
qed

lemma valof_pos_int: "0 \<le> e \<Longrightarrow> 10 * valof m e = of_int (m * 10 * 2 ^ nat e)"
  by (simp add: valof_def)


lemma sgn_div_nonneg: "0 \<le> q \<Longrightarrow> sgn q * (q div d) = q div (d::int)"
  by (cases "q = 0") auto

lemma rne_zero: "rne 0 k = 0"
  by (cases k) (auto simp: rne_def Let_def)

lemma rne_nonneg: "0 \<le> a \<Longrightarrow> 0 \<le> rne a k"
  using rne_lower [of a k] by (meson order_trans pos_imp_zdiv_nonneg_iff zero_less_numeral zero_less_power)

lemma round_double_rounded:
  assumes k: "k = max (bitlen \<bar>p\<bar> - 53) (- 1074 - e)" and pos: "\<not> k \<le> 0"
    and fin: "\<not> (0 \<le> e + k \<and> 2 ^ 1024 \<le> rne \<bar>p\<bar> (nat k) * 2 ^ nat (e + k))"
  shows "round_double p e = Finite (sgn p * rne \<bar>p\<bar> (nat k)) (e + k)"
proof -
  have "round_double p e =
      (if k \<le> 0 then
         (if 0 \<le> e \<and> 2 ^ 1024 \<le> \<bar>p\<bar> * 2 ^ nat e then Infinity (p < 0) else Finite p e)
       else
         (if 0 \<le> e + k \<and> 2 ^ 1024 \<le> rne \<bar>p\<bar> (nat k) * 2 ^ nat (e + k) then Infinity (p < 0)
          else Finite (sgn p * rne \<bar>p\<bar> (nat k)) (e + k)))"
    unfolding round_double_def Let_def k ..
  also have "\<dots> = Finite (sgn p * rne \<bar>p\<bar> (nat k)) (e + k)"
    using pos fin by (simp only: if_False)
  finally show ?thesis .
qed

lemma py_int_round_double:
  assumes p: "0 \<le> p" and e: "e < 0" and le: "p \<le> 65535 * 2 ^ nat (- e)"
  shows "\<exists>n. py_int (round_double p e) = Inr n \<and>
             p div 2 ^ nat (- e) \<le> n \<and> n \<le> - ((- p) div 2 ^ nat (- e))"
proof -
  define E where "E = nat (- e)"
  define k where "k = max (bitlen \<bar>p\<bar> - 53) (- 1074 - e)"
  have eE: "e = - int E" using e by (simp add: E_def)
  have fl_le_ce: "p div 2 ^ E \<le> - ((- p) div 2 ^ E)"
    using trunc_rounded_lower [of p 0 E] trunc_rounded_upper [of p 0 E] p
    by (simp add: rne_def)
  show ?thesis
  proof (cases "k \<le> 0")
    case True
    then have "round_double p e = Finite p e"
      using e by (simp add: round_double_def k_def Let_def)
    then have "py_int (round_double p e) = Inr (p div 2 ^ E)"
      using e p by (simp add: py_int_def E_def sgn_div_nonneg)
    with fl_le_ce show ?thesis by (simp add: E_def)
  next
    case False
    define K where "K = nat k"
    have pos: "(0::int) < 2 ^ E" by simp
    from le have "p \<le> 65535 * 2 ^ E" by (simp add: E_def)
    with pos have "p < 65536 * 2 ^ E" by linarith
    moreover have "(2::int) ^ nat (16 + int E) = 65536 * 2 ^ E"
      by (simp add: nat_add_distrib power_add)
    ultimately have "p < 2 ^ nat (16 + int E)" by simp
    then have "bitlen p \<le> 16 + int E"
      by (intro bitlen_le) auto
    then have kE: "k \<le> int E"
      using p by (simp add: k_def eE)
    then have KE: "K \<le> E" using False by (simp add: K_def)
    define q where "q = rne p K"
    have q0: "0 \<le> q" using p by (simp add: q_def rne_nonneg)
    have sq: "sgn p * q = q"
      using p by (cases "p = 0") (auto simp: q_def rne_zero)
    have qsmall: "q < 2 ^ 1024" if "K = E"
    proof -
      have "p div 2 ^ E \<le> 65535 * 2 ^ E div 2 ^ E"
        by (rule zdiv_mono1) (use le in \<open>auto simp: E_def\<close>)
      then have "p div 2 ^ E \<le> 65535" by simp
      with rne_upper [of p K] that have "q \<le> 65536" by (simp add: q_def)
      then show ?thesis by simp
    qed
    have ek: "e + k = - int (E - K)"
      using KE False by (simp add: eE K_def)
    have no_inf: "\<not> (0 \<le> e + k \<and> 2 ^ 1024 \<le> q * 2 ^ nat (e + k))"
    proof
      assume a: "0 \<le> e + k \<and> 2 ^ 1024 \<le> q * 2 ^ nat (e + k)"
      then have "K = E" using ek KE by simp
      with qsmall a ek show False by simp
    qed
    have abs_p: "\<bar>p\<bar> = p" using p by simp
    have fin: "\<not> (0 \<le> e + k \<and> 2 ^ 1024 \<le> rne \<bar>p\<bar> (nat k) * 2 ^ nat (e + k))"
      unfolding abs_p using no_inf unfolding q_def K_def .
    from k_def False fin
    have "round_double p e = Finite (sgn p * rne \<bar>p\<bar> (nat k)) (e + k)"
      by (rule round_double_rounded)
    then have "round_double p e = Finite (sgn p * q) (e + k)"
      unfolding abs_p q_def K_def .
    then have rd: "round_double p e = Finite q (e + k)"
      by (simp only: sq)
    have "py_int (Finite q (e + k)) = Inr (q div 2 ^ (E - K))"
    proof (cases "K = E")
      case True
      then show ?thesis using ek by (simp add: py_int_def)
    next
      case False
      then have neg: "e + k < 0" using ek KE by simp
      have nk: "nat (- (e + k)) = E - K" by (simp add: ek)
      from neg have "py_int (Finite q (e + k)) = Inr (sgn q * (\<bar>q\<bar> div 2 ^ nat (- (e + k))))"
        by (simp add: py_int_def)
      also have "\<dots> = Inr (q div 2 ^ (E - K))"
        unfolding nk using q0 by (simp add: sgn_div_nonneg)
      finally show ?thesis .
    qed
    with rd have "py_int (round_double p e) = Inr (q div 2 ^ (E - K))" by simp
    moreover have "p div 2 ^ E \<le> q div 2 ^ (E - K)"
      unfolding q_def using p KE by (rule trunc_rounded_lower)
    moreover have "q div 2 ^ (E - K) \<le> - ((- p) div 2 ^ E)"
      unfolding q_def using p KE by (rule trunc_rounded_upper)
    ultimately show ?thesis by (simp add: E_def)
  qed
qed

lemma py_int_round_double_int:
  assumes p: "0 \<le> p" and e: "0 \<le> e" and le: "p * 2 ^ nat e \<le> 65535"
  shows "py_int (round_double p e) = Inr (p * 2 ^ nat e)"
proof -
  have "(1::int) \<le> 2 ^ nat e" by simp
  then have "p * 1 \<le> p * 2 ^ nat e" using p by (intro mult_left_mono) auto
  with le have "p < 2 ^ nat 16" by simp
  then have "bitlen p \<le> 16" by (intro bitlen_le) auto
  then have "max (bitlen \<bar>p\<bar> - 53) (- 1074 - e) \<le> 0" using p e by simp
  moreover have "\<not> (2 ^ 1024 \<le> \<bar>p\<bar> * 2 ^ nat e)" using le p by simp
  ultimately have "round_double p e = Finite p e"
    by (simp add: round_double_def Let_def)
  then show ?thesis using e by (simp add: py_int_def)
qed

lemma scaled_in_range:
  assumes lo: "0 \<le> valof m e" and hi: "valof m e \<le> 13107 / 2"
  shows "\<exists>n. scaled (Finite m e) = Inr n \<and>
             py_int (fmul (Finite m e) (float_of_int 10)) = Inr n \<and>
             0 \<le> n \<and> n \<le> 65535 \<and>
             \<lfloor>10 * valof m e\<rfloor> \<le> n \<and> n \<le> \<lceil>10 * valof m e\<rceil>"
proof -
  define x where "x = 10 * valof m e"
  have m: "0 \<le> m * 10" using lo valof_nonneg by simp
  have x0: "0 \<le> \<lfloor>x\<rfloor>" using lo by (simp add: x_def)
  have x1: "\<lceil>x\<rceil> \<le> 65535" using hi by (simp add: x_def ceiling_le_iff)
  have fm: "fmul (Finite m e) (float_of_int 10) = round_double (m * 10) e"
    by (simp add: float_of_int_10)
  have "\<exists>n. py_int (round_double (m * 10) e) = Inr n \<and> \<lfloor>x\<rfloor> \<le> n \<and> n \<le> \<lceil>x\<rceil>"
  proof (cases "0 \<le> e")
    case True
    have xi: "x = of_int (m * 10 * 2 ^ nat e)"
      unfolding x_def using True by (rule valof_pos_int)
    then have ce: "\<lceil>x\<rceil> = m * 10 * 2 ^ nat e" by (simp only: ceiling_of_int)
    from xi have fl: "\<lfloor>x\<rfloor> = m * 10 * 2 ^ nat e" by (simp only: floor_of_int)
    from ce x1 have "m * 10 * 2 ^ nat e \<le> 65535" by simp
    with m True have "py_int (round_double (m * 10) e) = Inr (m * 10 * 2 ^ nat e)"
      by (intro py_int_round_double_int)
    then show ?thesis using ce fl by simp
  next
    case False
    then have e: "e < 0" by simp
    have ce: "\<lceil>x\<rceil> = - ((- (m * 10)) div 2 ^ nat (- e))"
      unfolding x_def using e by (rule ceiling_valof_neg)
    have fl: "\<lfloor>x\<rfloor> = (m * 10) div 2 ^ nat (- e)"
      unfolding x_def using e by (rule floor_valof_neg)
    have "rat_of_int m \<le> 13107 / 2 * 2 ^ nat (- e)"
      using hi e by (simp add: valof_def pos_divide_le_eq)
    then have "rat_of_int (m * 10) \<le> rat_of_int (65535 * 2 ^ nat (- e))" by simp
    then have "m * 10 \<le> 65535 * 2 ^ nat (- e)" by (simp only: of_int_le_iff)
    from py_int_round_double [OF m e this] show ?thesis by (simp add: ce fl)
  qed
  then obtain n where n: "py_int (round_double (m * 10) e) = Inr n" "\<lfloor>x\<rfloor> \<le> n" "n \<le> \<lceil>x\<rceil>"
    by blast
  with x0 x1 have "0 \<le> n" "n \<le> 65535" by linarith+
  with n fm have "scaled (Finite m e) = Inr n"
    by (simp add: scaled_def bind_exn_def)
  with n fm \<open>0 \<le> n\<close> \<open>n \<le> 65535\<close> show ?thesis by (auto simp: x_def)
qed


lemma scaled_10000: "scaled (Finite 10000 0) = Inr 65535"
  by (simp add: scaled_def float_of_int_10 bind_exn_def py_int_def round_double_def compute_bitlen)

text \<open>
  C3, as stated, fails: the field is not \<open>round (value * 10)\<close>. At \<open>0.1875\<close> (the double
  \<open>3 * 2 ^ - 4\<close>) the source computes \<open>int(1.875) = 1\<close>, the rounded value is 2.
\<close>

theorem scaled_round_counterexample:
  "0 \<le> valof 3 (- 4) \<and> valof 3 (- 4) \<le> 13107 / 2 \<and> is_double (Finite 3 (- 4)) \<and>
   scaled (Finite 3 (- 4)) = Inr 1 \<and> spec_field (valof 3 (- 4)) = 2"
proof -
  have "spec_field (valof 3 (- 4)) = 2"
    by (simp add: spec_field_def valof_def round_def floor_eq_iff)
  then show ?thesis
  by (simp add: valof_def is_double_def scaled_def float_of_int_10 bind_exn_def py_int_def
      round_double_def compute_bitlen)
qed

text \<open>
  C3, amended. For a finite value within \<open>[0, 6553.5]\<close> the source computes, for its
  16-bit field, the double product \<open>value * 10\<close> truncated toward zero: the result lies
  in \<open>[0, 65535]\<close> (the cap leaves it as it is) and between the floor and the ceiling
  of the exact product. The value \<open>10000.0\<close> gives 65535.
\<close>

theorem scaled_truncates:
  "(0 \<le> valof m e \<and> valof m e \<le> 13107 / 2 \<longrightarrow>
      (\<exists>n. scaled (Finite m e) = Inr n \<and>
           py_int (fmul (Finite m e) (float_of_int 10)) = Inr n \<and>
           0 \<le> n \<and> n \<le> 65535 \<and>
           \<lfloor>10 * valof m e\<rfloor> \<le> n \<and> n \<le> \<lceil>10 * valof m e\<rceil>)) \<and>
   scaled (Finite 10000 0) = Inr 65535"
  using scaled_in_range [of m e] scaled_10000 by blast

theorem scaled_truncates_witness:
  "0 \<le> valof 6160783552754483 (- 44) \<and> valof 6160783552754483 (- 44) \<le> 13107 / 2 \<and>
   (\<exists>n. scaled (Finite 6160783552754483 (- 44)) = Inr n \<and>
        py_int (fmul (Finite 6160783552754483 (- 44)) (float_of_int 10)) = Inr n \<and>
        0 \<le> n \<and> n \<le> 65535 \<and>
        \<lfloor>10 * valof 6160783552754483 (- 44)\<rfloor> \<le> n \<and>
        n \<le> \<lceil>10 * valof 6160783552754483 (- 44)\<rceil>)"
proof -
  have h: "0 \<le> valof 6160783552754483 (- 44) \<and> valof 6160783552754483 (- 44) \<le> 13107 / 2"
    by (simp add: valof_def)
  with scaled_truncates [of 6160783552754483 "- 44"] show ?thesis by blast
qed

section \<open>The producer endpoint\<close>

lemma json_decode_error_continues:
  assumes "validate data = Inl JSONDecodeError"
  shows "receive_loop validate computer_id (ReceiveText data now # evs) s =
           receive_loop validate computer_id evs
             (logger ERROR ParseFailed (logger DEBUG (Received computer_id data) s))"
  using assms by simp

text \<open>
  C2. The specification has a payload that does not parse discarded with a warning
  and the connection kept open. \<^verbatim>\<open>model_validate_json\<close> raises
  \<^verbatim>\<open>pydantic.ValidationError\<close> for such a payload; the inner clause names
  \<^verbatim>\<open>json.JSONDecodeError\<close> and the outer one \<^verbatim>\<open>WebSocketDisconnect\<close>, so the
  exception leaves the handler: no later message is received, nothing but the debug
  line is written, and the producer stays in the registry. (Only an exception of the
  class the inner clause names would be logged and skipped: \<open>json_decode_error_continues\<close>.)
\<close>

theorem malformed_payload_ends_handler:
  assumes "validate data = Inl ValidationError"
  shows "receive_loop validate computer_id (ReceiveText data now # evs) s =
           (Raised ValidationError, logger DEBUG (Received computer_id data) s)"
  using assms by simp

theorem malformed_payload_ends_handler_witness:
  "websocket_endpoint \<lparr>SECRET_KEY = ''k''\<rparr> (\<lambda>_. Inl ValidationError) 7 ''pc1'' ''k''
     [ReceiveText ''not json'' 1, ReceiveText ''next'' 2] (init_server None) =
   (Raised ValidationError,
    logger DEBUG (Received ''pc1'' ''not json'')
      (logger INFO (Connected ''pc1'')
         ((init_server None)\<lparr>accepted := [7], computercraft_connections := [(''pc1'', 7)]\<rparr>)))"
  using malformed_payload_ends_handler [of "\<lambda>_. Inl ValidationError" "''not json''" "''pc1''" 1
      "[ReceiveText ''next'' 2]"
      "logger INFO (Connected ''pc1'')
         (add_computercraft ''pc1'' 7
            ((init_server None)\<lparr>accepted := accepted (init_server None) @ [7]\<rparr>))"]
  by (simp add: websocket_endpoint_def get_secret_key_def add_computercraft_def init_server_def
      logger_def)

lemma send_to_esp8266_frame:
  "reactor_data (send_to_esp8266 d s) = reactor_data s"
  "data_buffer (send_to_esp8266 d s) = data_buffer s"
  "data_log (send_to_esp8266 d s) = data_log s"
  "log_file (send_to_esp8266 d s) = log_file s"
  "computercraft_connections (send_to_esp8266 d s) = computercraft_connections s"
  "esp8266_connected (send_to_esp8266 d s) = esp8266_connected s"
  by (simp_all add: send_to_esp8266_def logger_def split: sum.splits)

text \<open>
  C5, as stated, fails for the instance the ingest records as latest state: it is the
  parsed record itself, with the timestamp of the payload.
\<close>

theorem ingest_latest_counterexample:
  "timestamp (reactor_data (snd (receive_loop (\<lambda>_. Inr (default_reading\<lparr>timestamp := Some 5\<rparr>))
      ''pc1'' [ReceiveText ''reading'' 9] (init_server None)))) = Some 5 \<and>
   map timestamp (data_buffer (snd (receive_loop (\<lambda>_. Inr (default_reading\<lparr>timestamp := Some 5\<rparr>))
      ''pc1'' [ReceiveText ''reading'' 9] (init_server None)))) = [Some 9]"
  by (simp add: Let_def send_to_esp8266_frame add_log_entry_def logger_def init_server_def)

text \<open>
  C5, amended. An ingest pushes to the buffer a copy of the reading whose timestamp is
  the clock reading of the ingest, whatever the payload said; the latest-state slot
  receives the parsed reading unchanged.
\<close>

theorem ingest_timestamps:
  assumes "validate data = Inr rd"
  shows "reactor_data (snd (receive_loop validate computer_id [ReceiveText data now] s)) = rd \<and>
         data_buffer (snd (receive_loop validate computer_id [ReceiveText data now] s)) =
           data_buffer s @ [rd\<lparr>timestamp := Some now\<rparr>]"
  using assms by (simp add: Let_def send_to_esp8266_frame add_log_entry_def logger_def)

theorem ingest_timestamps_witness:
  "reactor_data (snd (receive_loop (\<lambda>_. Inr (default_reading\<lparr>timestamp := Some 5\<rparr>)) ''pc1''
      [ReceiveText ''reading'' 9] (init_server None))) = default_reading\<lparr>timestamp := Some 5\<rparr> \<and>
   data_buffer (snd (receive_loop (\<lambda>_. Inr (default_reading\<lparr>timestamp := Some 5\<rparr>)) ''pc1''
      [ReceiveText ''reading'' 9] (init_server None))) = [default_reading\<lparr>timestamp := Some 9\<rparr>]"
  using ingest_timestamps [of "\<lambda>_. Inr (default_reading\<lparr>timestamp := Some 5\<rparr>)" "''reading''"
      "default_reading\<lparr>timestamp := Some 5\<rparr>" "''pc1''" 9 "init_server None"]
  by (simp add: init_server_def)

text \<open>
  C6. A link whose secret differs from the configured one is refused with status 403
  by the dependency, before the endpoint body runs: nothing is accepted and the state
  (the registry included) is the one before the attempt.
\<close>

theorem auth_rejected:
  assumes "secret \<noteq> SECRET_KEY settings"
  shows "websocket_endpoint settings validate ws computer_id secret evs s =
           (Rejected (HTTPException 403), s)"
  using assms by (simp add: websocket_endpoint_def get_secret_key_def)

theorem auth_rejected_witness:
  "''guess'' \<noteq> SECRET_KEY \<lparr>SECRET_KEY = ''supersecretkey''\<rparr> \<and>
   websocket_endpoint \<lparr>SECRET_KEY = ''supersecretkey''\<rparr> (\<lambda>_. Inl ValidationError) 1 ''pc1''
     ''guess'' [ReceiveText ''x'' 0] three = (Rejected (HTTPException 403), three)"
proof -
  have h: "''guess'' \<noteq> SECRET_KEY \<lparr>SECRET_KEY = ''supersecretkey''\<rparr>" by simp
  from auth_rejected [OF h] h show ?thesis by blast
qed

section \<open>The command fan-out\<close>

lemma on_disconnect_sent [simp]: "sent (on_disconnect k s) = sent s"
  by (simp add: on_disconnect_def remove_computercraft_def logger_def)

lemma fold_on_disconnect_sent [simp]: "sent (fold on_disconnect gone s) = sent s"
  by (induction gone arbitrary: s) simp_all

lemma on_disconnect_length:
  "length (computercraft_connections (on_disconnect k s)) \<le> length (computercraft_connections s)"
  by (simp add: on_disconnect_def remove_computercraft_def logger_def)

lemma fold_on_disconnect_length:
  "length (computercraft_connections (fold on_disconnect gone s))
     \<le> length (computercraft_connections s)"
proof (induction gone arbitrary: s)
  case Nil
  show ?case by simp
next
  case (Cons k gone)
  have "length (computercraft_connections (fold on_disconnect gone (on_disconnect k s)))
          \<le> length (computercraft_connections (on_disconnect k s))"
    by (rule Cons.IH)
  also have "\<dots> \<le> length (computercraft_connections s)"
    by (rule on_disconnect_length)
  finally show ?case by simp
qed

lemma on_disconnect_absent:
  "k \<notin> fst ` set (computercraft_connections s) \<Longrightarrow>
   computercraft_connections (on_disconnect k s) = computercraft_connections s"
  by (simp add: on_disconnect_def remove_computercraft_def logger_def)

lemma on_disconnect_present:
  assumes "k \<in> fst ` set (computercraft_connections s)"
  shows "length (computercraft_connections (on_disconnect k s))
           < length (computercraft_connections s)"
proof -
  from assms obtain kv where kv: "kv \<in> set (computercraft_connections s)" "fst kv = k"
    by auto
  then have "length (filter (\<lambda>kv. fst kv \<noteq> k) (computercraft_connections s))
               < length (computercraft_connections s)"
    by (intro length_filter_less [of kv]) auto
  with assms show ?thesis
    by (simp add: on_disconnect_def remove_computercraft_def logger_def)
qed

lemma fold_on_disconnect_absent:
  "\<not> list_ex (\<lambda>k. k \<in> fst ` set (computercraft_connections s)) gone \<Longrightarrow>
   computercraft_connections (fold on_disconnect gone s) = computercraft_connections s"
  by (induction gone arbitrary: s) (simp_all add: on_disconnect_absent)

lemma fold_on_disconnect_present:
  "list_ex (\<lambda>k. k \<in> fst ` set (computercraft_connections s)) gone \<Longrightarrow>
   length (computercraft_connections (fold on_disconnect gone s))
     < length (computercraft_connections s)"
proof (induction gone arbitrary: s)
  case Nil
  then show ?case by simp
next
  case (Cons k gone)
  show ?case
  proof (cases "k \<in> fst ` set (computercraft_connections s)")
    case True
    have "length (computercraft_connections (fold on_disconnect gone (on_disconnect k s)))
            \<le> length (computercraft_connections (on_disconnect k s))"
      by (rule fold_on_disconnect_length)
    also have "\<dots> < length (computercraft_connections s)"
      using True by (rule on_disconnect_present)
    finally show ?thesis by simp
  next
    case False
    then have same: "computercraft_connections (on_disconnect k s) = computercraft_connections s"
      by (rule on_disconnect_absent)
    from Cons.prems False
    have "list_ex (\<lambda>x. x \<in> fst ` set (computercraft_connections (on_disconnect k s))) gone"
      by (simp add: same)
    then have "length (computercraft_connections (fold on_disconnect gone (on_disconnect k s)))
                 < length (computercraft_connections (on_disconnect k s))"
      by (rule Cons.IH)
    then show ?thesis by (simp add: same)
  qed
qed

lemma fan_out_sent:
  assumes "length (computercraft_connections s) = used" and "pos \<le> used"
  shows "sent (snd (fan_out send_text msg used pos env s)) =
           sent s @ delivered send_text msg
             (visited (map fst (computercraft_connections s))
                (drop pos (computercraft_connections s)) env)"
  using assms
proof (induction "used - pos" arbitrary: pos env s)
  case 0
  then have "drop pos (computercraft_connections s) = []" by simp
  moreover from 0 have "fan_out send_text msg used pos env s = (None, s)"
    by (subst fan_out.simps) simp
  ultimately show ?case by (simp add: delivered_def)
next
  case (Suc n)
  define d where "d = computercraft_connections s"
  define kv where "kv = d ! pos"
  define gone where "gone = (case env of [] \<Rightarrow> [] | g # _ \<Rightarrow> g)"
  define s1 where "s1 = (case send_text (snd kv) of
                     None \<Rightarrow> s\<lparr>sent := sent s @ [(snd kv, msg)]\<rparr>
                   | Some e \<Rightarrow> logger ERROR (CommandSendFailed (fst kv) e) s)"
  define s2 where "s2 = fold on_disconnect gone s1"
  from Suc have pos: "pos < length d" and len: "length d = used" by (simp_all add: d_def)
  have step: "fan_out send_text msg used pos env s = fan_out send_text msg used (Suc pos) (tl env) s2"
    unfolding s2_def s1_def gone_def kv_def using pos len
    by (subst fan_out.simps) (simp add: d_def [symmetric] Let_def)
  have d1: "computercraft_connections s1 = d"
    by (simp add: s1_def d_def logger_def split: option.splits)
  have sent1: "sent s1 = sent s @ delivered send_text msg [kv]"
    by (simp add: s1_def delivered_def logger_def split: option.splits)
  have drop: "drop pos d = kv # drop (Suc pos) d"
    using pos by (simp add: kv_def Cons_nth_drop_Suc)
  have sent2: "sent s2 = sent s @ delivered send_text msg [kv]"
    by (simp add: s2_def sent1)
  show ?case
  proof (cases "list_ex (\<lambda>k. k \<in> set (map fst d)) gone")
    case True
    then have "length (computercraft_connections s2) < length d"
      unfolding s2_def using fold_on_disconnect_present [of s1 gone] by (simp add: d1)
    then have "fan_out send_text msg used (Suc pos) (tl env) s2 = (Some RuntimeError, s2)"
      using len by (subst fan_out.simps) simp
    moreover have "visited (map fst d) (drop pos d) env = [kv]"
      using True by (simp add: drop gone_def split: list.splits)
    ultimately show ?thesis
      by (simp add: step d_def [symmetric] sent2)
  next
    case False
    then have d2: "computercraft_connections s2 = d"
      unfolding s2_def using fold_on_disconnect_absent [of s1 gone] by (simp add: d1)
    have "sent (snd (fan_out send_text msg used (Suc pos) (tl env) s2)) =
            sent s2 @ delivered send_text msg
              (visited (map fst (computercraft_connections s2))
                 (drop (Suc pos) (computercraft_connections s2)) (tl env))"
      using Suc.hyps(2) pos len by (intro Suc.hyps(1)) (simp_all add: d2)
    moreover have "visited (map fst d) (drop pos d) env = kv # visited (map fst d) (drop (Suc pos) d) (tl env)"
      using False by (simp add: drop gone_def split: list.splits)
    ultimately show ?thesis
      by (simp add: step d_def [symmetric] d2 sent2 delivered_def)
  qed
qed

lemma visited_all:
  "\<forall>gone\<in>set env. \<forall>k\<in>set gone. k \<notin> set keys \<Longrightarrow> visited keys d env = d"
proof (induction d arbitrary: env)
  case Nil
  show ?case by simp
next
  case (Cons kv d)
  then show ?case
    by (cases env) (auto simp: list_ex_iff)
qed

lemma fan_out_quiet:
  assumes "length (computercraft_connections s) = used" and "pos \<le> used"
  shows "fan_out send_text msg used pos [] s =
           (None, s\<lparr>sent := sent s @ delivered send_text msg (drop pos (computercraft_connections s)),
                   logs := logs s @ failures send_text (drop pos (computercraft_connections s))\<rparr>)"
  using assms
proof (induction "used - pos" arbitrary: pos s)
  case 0
  then have "drop pos (computercraft_connections s) = []" by simp
  moreover from 0 have "fan_out send_text msg used pos [] s = (None, s)"
    by (subst fan_out.simps) simp
  ultimately show ?case by (simp add: delivered_def failures_def)
next
  case (Suc n)
  define d where "d = computercraft_connections s"
  define kv where "kv = d ! pos"
  define s1 where "s1 = (case send_text (snd kv) of
                     None \<Rightarrow> s\<lparr>sent := sent s @ [(snd kv, msg)]\<rparr>
                   | Some e \<Rightarrow> logger ERROR (CommandSendFailed (fst kv) e) s)"
  from Suc have pos: "pos < length d" and len: "length d = used" by (simp_all add: d_def)
  have step: "fan_out send_text msg used pos [] s = fan_out send_text msg used (Suc pos) [] s1"
    unfolding s1_def kv_def using pos len
    by (subst fan_out.simps) (simp add: d_def [symmetric] Let_def)
  have d1: "computercraft_connections s1 = d"
    by (simp add: s1_def d_def logger_def split: option.splits)
  have drop: "drop pos d = kv # drop (Suc pos) d"
    using pos by (simp add: kv_def Cons_nth_drop_Suc)
  have "fan_out send_text msg used (Suc pos) [] s1 =
          (None, s1\<lparr>sent := sent s1 @ delivered send_text msg (drop (Suc pos) (computercraft_connections s1)),
                   logs := logs s1 @ failures send_text (drop (Suc pos) (computercraft_connections s1))\<rparr>)"
    using Suc.hyps(2) pos len by (intro Suc.hyps(1)) (simp_all add: d1)
  then show ?case
    by (simp add: step d_def [symmetric] d1 drop s1_def delivered_def failures_def logger_def
        split: option.splits)
qed






section \<open>The log buffer\<close>

text \<open>
  C8. The specification has a flush append the buffered readings, in order, to the
  table and empty the buffer. A fresh table has the declared columns (\<open>Float32\<close>,
  \<open>UInt8\<close>), the frame built from the buffered records has \<open>Float64\<close> and \<open>Int64\<close>
  columns, and \<^verbatim>\<open>pl.concat\<close> raises: after A and B are appended to a fresh log, the
  flush fails, the table stays empty and both readings stay in the buffer.
\<close>

theorem flush_fresh_log_raises:
  "flush_buffer_to_log (add_log_entry b t2 (add_log_entry a t1 (init_server None))) =
     (Some SchemaError, add_log_entry b t2 (add_log_entry a t1 (init_server None))) \<and>
   rows (data_log (add_log_entry b t2 (add_log_entry a t1 (init_server None)))) = [] \<and>
   data_buffer (add_log_entry b t2 (add_log_entry a t1 (init_server None))) =
     [a\<lparr>timestamp := Some t1\<rparr>, b\<lparr>timestamp := Some t2\<rparr>]"
  by (simp add: flush_buffer_to_log_def add_log_entry_def init_server_def pl_concat_def
      load_or_initialize_log_def log_schema_def frame_of_dumps_def)

lemma flush_matching_schema:
  assumes "schema (data_log s) = schema (frame_of_dumps (data_buffer s))"
  shows "rows (data_log (snd (flush_buffer_to_log s))) = rows (data_log s) @ data_buffer s \<and>
         data_buffer (snd (flush_buffer_to_log s)) = [] \<and> fst (flush_buffer_to_log s) = None"
  using assms by (simp add: flush_buffer_to_log_def pl_concat_def frame_of_dumps_def logger_def)

text \<open>
  C9. A second flush right after a flush changes nothing, the table included, and a
  flush of an empty buffer returns without touching the state.
\<close>

theorem flush_twice:
  "snd (flush_buffer_to_log (snd (flush_buffer_to_log s))) = snd (flush_buffer_to_log s) \<and>
   (data_buffer s = [] \<longrightarrow> flush_buffer_to_log s = (None, s))"
  by (simp add: flush_buffer_to_log_def logger_def split: sum.splits)

theorem flush_twice_witness:
  "data_buffer three = [] \<and> flush_buffer_to_log three = (None, three)"
proof -
  have h: "data_buffer three = []" by (simp add: three_def init_server_def)
  with flush_twice [of three] show ?thesis by blast
qed

text \<open>
  C10. \<^verbatim>\<open>add_log_entry\<close> appends one copy of the reading, stamped with the clock
  reading, to the buffer and changes nothing else: not the table, the file, the
  latest-state slot or the registry.
\<close>

theorem add_log_entry_frame:
  "data_buffer (add_log_entry rd now s) = data_buffer s @ [rd\<lparr>timestamp := Some now\<rparr>] \<and>
   data_log (add_log_entry rd now s) = data_log s \<and>
   log_file (add_log_entry rd now s) = log_file s \<and>
   reactor_data (add_log_entry rd now s) = reactor_data s \<and>
   computercraft_connections (add_log_entry rd now s) = computercraft_connections s \<and>
   esp8266_connected (add_log_entry rd now s) = esp8266_connected s \<and>
   add_log_entry rd now s = s\<lparr>data_buffer := data_buffer (add_log_entry rd now s)\<rparr>"
  by (simp add: add_log_entry_def)

end
